theory Spec2Isabelle
  imports Complex_Main
begin

section \<open>JavaScript values and records\<close>

text \<open>
  The hooks of \<^verbatim>\<open>components-react/hooks\<close> move JavaScript values around without
  computing on them. A value is a primitive or an object; an object is a finite keyed
  record, modelled as a map from property names to values. Property order is not
  modelled (two records are equal when they hold the same entries), and arrays are not
  distinguished from other objects.
\<close>

datatype jsval =
    JUndefined
  | JNull
  | JBool bool
  | JNum int
  | JStr string
  | JObj "string \<Rightarrow> jsval option"

type_synonym obj = "string \<Rightarrow> jsval option"

text \<open>Property read \<^verbatim>\<open>o[k]\<close>: a missing property reads as \<^verbatim>\<open>undefined\<close>.\<close>

definition get_prop :: "obj \<Rightarrow> string \<Rightarrow> jsval" where
  "get_prop ob k = (case ob k of None \<Rightarrow> JUndefined | Some v \<Rightarrow> v)"

text \<open>Decimal rendering of an index, as JavaScript names the index properties of a string.\<close>

definition digit :: "nat \<Rightarrow> char" where
  "digit d = ''0123456789'' ! d"

fun decimal :: "nat \<Rightarrow> string" where
  "decimal n = (if n < 10 then [digit n] else decimal (n div 10) @ [digit (n mod 10)])"

declare decimal.simps [simp del]

text \<open>
  The own enumerable properties that an object spread \<^verbatim>\<open>{...v}\<close> copies:
  those of an object, the index properties of a string, none for the other primitives
  (spreading \<^verbatim>\<open>undefined\<close> or \<^verbatim>\<open>null\<close> copies nothing and does not throw).
\<close>

fun spread :: "jsval \<Rightarrow> obj" where
  "spread (JObj m) = m"
| "spread (JStr cs) = map_of (map (\<lambda>i. (decimal i, JStr [cs ! i])) [0..<length cs])"
| "spread JUndefined = Map.empty"
| "spread JNull = Map.empty"
| "spread (JBool b) = Map.empty"
| "spread (JNum n) = Map.empty"

text \<open>\<^verbatim>\<open>useState\<close> accepts the initial value or a zero-argument factory for it.\<close>

datatype 'a initializer = Value 'a | Factory "unit \<Rightarrow> 'a"

fun initial :: "'a initializer \<Rightarrow> 'a" where
  "initial (Value v) = v"
| "initial (Factory f) = f ()"


section \<open>useStateHelper\<close>

text \<open>
  What one instance of \<^verbatim>\<open>useStateHelper\<close> keeps: the value \<^verbatim>\<open>s\<close> that the last
  render got from \<^verbatim>\<open>useState\<close>, React's state cell (written by \<^verbatim>\<open>setStateRaw\<close>
  and read by the next render), and the mirror \<^verbatim>\<open>stateRef.current\<close>.
\<close>

record helper =
  s_rendered :: obj
  cell :: obj
  stateRef :: obj

text \<open>First render: \<^verbatim>\<open>useState(initializer)\<close>, then \<^verbatim>\<open>useRef(s)\<close>.\<close>

definition useStateHelper :: "obj initializer \<Rightarrow> helper" where
  "useStateHelper initializer =
     (let s = initial initializer in \<lparr>s_rendered = s, cell = s, stateRef = s\<rparr>)"

text \<open>
  A later render: \<^verbatim>\<open>useState\<close> returns the cell, \<^verbatim>\<open>useRef\<close> ignores its argument
  and returns the same ref object.
\<close>

definition rerender :: "helper \<Rightarrow> helper" where
  "rerender h = h\<lparr>s_rendered := cell h\<rparr>"

definition setStateRaw :: "obj \<Rightarrow> helper \<Rightarrow> helper" where
  "setStateRaw newState h = h\<lparr>cell := newState\<rparr>"

definition setState :: "obj \<Rightarrow> helper \<Rightarrow> helper" where
  "setState newState h = setStateRaw newState (h\<lparr>stateRef := newState\<rparr>)"

definition updateState :: "obj \<Rightarrow> helper \<Rightarrow> helper" where
  "updateState patch h = setState (stateRef h ++ patch) h"

definition setItem :: "string \<Rightarrow> string \<Rightarrow> jsval \<Rightarrow> helper \<Rightarrow> helper" where
  "setItem dictionaryName key val h =
     setState ((stateRef h)(dictionaryName \<mapsto>
                 JObj ((spread (get_prop (stateRef h) dictionaryName))(key \<mapsto> val)))) h"

record 'h binding =
  b_name :: string
  b_value :: jsval
  onChange :: "jsval \<Rightarrow> 'h \<Rightarrow> 'h"

text \<open>
  Modelled from the spec: \<^verbatim>\<open>createBinding\<close> of \<^verbatim>\<open>./shared/inputs\<close> is not among the
  sources; only its call \<^verbatim>\<open>createBinding(s, setState)\<close> is. The spec describes the
  result as a descriptor \<^verbatim>\<open>{name, value, onChange}\<close> for one field whose \<^verbatim>\<open>onChange\<close>
  commits the record with that field replaced. The function receives a target record and
  a whole-record setter and nothing else, so the record it commits is built from the
  target it was given.
\<close>

definition createBinding :: "obj \<Rightarrow> (obj \<Rightarrow> 'h \<Rightarrow> 'h) \<Rightarrow> string \<Rightarrow> 'h binding" where
  "createBinding target setter fieldName =
     \<lparr>b_name = fieldName,
      b_value = get_prop target fieldName,
      onChange = (\<lambda>newVal. setter (target(fieldName \<mapsto> newVal)))\<rparr>"

text \<open>The \<^verbatim>\<open>bind\<close> member of the returned actions: \<^verbatim>\<open>createBinding(s, setState)\<close>.\<close>

definition bind :: "helper \<Rightarrow> string \<Rightarrow> helper binding" where
  "bind h = createBinding (s_rendered h) setState"


section \<open>useAsyncState\<close>

text \<open>
  A promise is pending or settled, and settles once. \<^verbatim>\<open>p.then(f)\<close> is the promise that,
  when \<^verbatim>\<open>p\<close> is fulfilled with \<^verbatim>\<open>x\<close>, runs \<^verbatim>\<open>f(x)\<close> and is fulfilled with its
  result, and that, when \<^verbatim>\<open>p\<close> is rejected, is rejected with the same reason without
  running \<^verbatim>\<open>f\<close>.
\<close>

datatype 'a outcome = Fulfilled 'a | Rejected string

datatype 'a promise = Pending | Settled "'a outcome"

text \<open>
  What one instance of \<^verbatim>\<open>useAsyncState\<close> keeps. Every render declares its own
  variable \<^verbatim>\<open>isDestroyed\<close>; \<open>isDestroyed h i\<close> is the variable of render \<open>i\<close>. The
  callback given to \<^verbatim>\<open>then\<close> and the callback given to \<^verbatim>\<open>useOnDestroy\<close> are closures
  over the variable of the render that created them: \<open>then_render\<close> and
  \<open>destroy_render\<close> name those renders. \<open>promise\<close> is the value memoised by
  \<^verbatim>\<open>useMemo\<close> (\<open>None\<close> is \<^verbatim>\<open>undefined\<close>); its result type is \<^verbatim>\<open>TStateType | null\<close>,
  with \<open>None\<close> for \<^verbatim>\<open>null\<close>. \<open>asyncCb_calls\<close> logs every call of an initializer: which
  callback, with which argument.
\<close>

record ('c, 's) async_hook =
  state :: 's
  renders :: nat
  isDestroyed :: "nat \<Rightarrow> bool"
  promise :: "'s option promise option"
  then_render :: nat
  destroy_render :: nat
  asyncCb_calls :: "('c \<times> 's) list"
  mounted :: bool

text \<open>
  The setter returned by \<^verbatim>\<open>useState\<close> writes the state cell of a mounted component.
  React ignores an update of a component that is no longer mounted.
\<close>

definition setState_async :: "'s \<Rightarrow> ('c, 's) async_hook \<Rightarrow> ('c, 's) async_hook" where
  "setState_async newState h = (if mounted h then h\<lparr>state := newState\<rparr> else h)"

text \<open>The callback of \<^verbatim>\<open>then\<close>: its result, and the hook after it ran.\<close>

definition then_callback ::
  "'s \<Rightarrow> ('c, 's) async_hook \<Rightarrow> 's option \<times> ('c, 's) async_hook" where
  "then_callback newState h =
     (if isDestroyed h (then_render h) then (None, h)
      else (Some newState, setState_async newState h))"

text \<open>
  The factory of \<^verbatim>\<open>useMemo\<close>, run by render \<open>i\<close>: with an initializer, call it on the
  state and chain \<^verbatim>\<open>then\<close>; without one, the value is \<^verbatim>\<open>undefined\<close>.
\<close>

definition memo_factory ::
  "'c option \<Rightarrow> nat \<Rightarrow> ('c, 's) async_hook \<Rightarrow> ('c, 's) async_hook" where
  "memo_factory asyncCb i h =
     (case asyncCb of
        Some cb \<Rightarrow> h\<lparr>asyncCb_calls := asyncCb_calls h @ [(cb, state h)],
                      promise := Some Pending,
                      then_render := i\<rparr>
      | None \<Rightarrow> h\<lparr>promise := None\<rparr>)"

text \<open>
  The first render. \<^verbatim>\<open>useState\<close> initialises the cell, the render declares its
  \<^verbatim>\<open>isDestroyed\<close>, \<^verbatim>\<open>useMemo\<close> runs its factory, and \<^verbatim>\<open>useEffect(() => cb, [])\<close>
  keeps this render's \<^verbatim>\<open>cb\<close> as the cleanup to run once the component is unmounted.
\<close>

definition useAsyncState :: "'s initializer \<Rightarrow> 'c option \<Rightarrow> ('c, 's) async_hook" where
  "useAsyncState defaultState asyncCb =
     memo_factory asyncCb 0
       \<lparr>state = initial defaultState,
        renders = 1,
        isDestroyed = (\<lambda>i. False),
        promise = None,
        then_render = 0,
        destroy_render = 0,
        asyncCb_calls = [],
        mounted = True\<rparr>"

text \<open>
  A later render with whatever arguments: \<^verbatim>\<open>useState\<close> ignores the default, a new
  \<^verbatim>\<open>isDestroyed\<close> is declared, \<^verbatim>\<open>useMemo\<close> and \<^verbatim>\<open>useEffect\<close> have the dependency
  list \<^verbatim>\<open>[]\<close> and so neither runs the factory nor replaces the cleanup.
\<close>

definition rerender_async ::
  "'s initializer \<Rightarrow> 'c option \<Rightarrow> ('c, 's) async_hook \<Rightarrow> ('c, 's) async_hook" where
  "rerender_async defaultState asyncCb h =
     h\<lparr>isDestroyed := (isDestroyed h)(renders h := False), renders := Suc (renders h)\<rparr>"

text \<open>The triple a render returns; the setter is \<open>setState_async\<close>.\<close>

definition returned :: "('c, 's) async_hook \<Rightarrow> 's \<times> 's option promise option" where
  "returned h = (state h, promise h)"

text \<open>The initializer's promise settles: \<^verbatim>\<open>then\<close> reacts if it has not done so before.\<close>

definition settle :: "'s outcome \<Rightarrow> ('c, 's) async_hook \<Rightarrow> ('c, 's) async_hook" where
  "settle out h =
     (if promise h = Some Pending then
        (case out of
           Fulfilled newState \<Rightarrow>
             (let (r, h') = then_callback newState h
              in h'\<lparr>promise := Some (Settled (Fulfilled r))\<rparr>)
         | Rejected reason \<Rightarrow> h\<lparr>promise := Some (Settled (Rejected reason))\<rparr>)
      else h)"

text \<open>
  React commits the unmount: from here on the component is not mounted. The hook's code
  does nothing at this moment. The cleanup of a \<^verbatim>\<open>useEffect\<close> is not part of the
  commit: React runs it afterwards, as a step of its own.
\<close>

definition unmount :: "('c, 's) async_hook \<Rightarrow> ('c, 's) async_hook" where
  "unmount h = h\<lparr>mounted := False\<rparr>"

text \<open>
  React runs the effect's cleanup, the \<^verbatim>\<open>cb\<close> of \<^verbatim>\<open>useOnDestroy\<close>: it sets the
  \<^verbatim>\<open>isDestroyed\<close> that the callback closes over. The dependency list being \<^verbatim>\<open>[]\<close>,
  the cleanup runs for an unmounted component only.
\<close>

definition run_cleanup :: "('c, 's) async_hook \<Rightarrow> ('c, 's) async_hook" where
  "run_cleanup h =
     (if mounted h then h
      else h\<lparr>isDestroyed := (isDestroyed h)(destroy_render h := True)\<rparr>)"

text \<open>
  What can happen to an instance, one at a time: a render, a call of the setter by the
  caller, the settlement of the initializer's promise, the commit of the unmount, and
  the run of the effect's cleanup.
\<close>

datatype ('c, 's) event =
    Rerender "'s initializer" "'c option"
  | SetState 's
  | Settle "'s outcome"
  | Unmount
  | Cleanup

fun step :: "('c, 's) event \<Rightarrow> ('c, 's) async_hook \<Rightarrow> ('c, 's) async_hook" where
  "step (Rerender d cb) h = (if mounted h then rerender_async d cb h else h)"
| "step (SetState v) h = setState_async v h"
| "step (Settle out) h = settle out h"
| "step Unmount h = unmount h"
| "step Cleanup h = run_cleanup h"

fun run :: "('c, 's) event list \<Rightarrow> ('c, 's) async_hook \<Rightarrow> ('c, 's) async_hook" where
  "run [] h = h"
| "run (e # es) h = run es (step e h)"

fun is_settle :: "('c, 's) event \<Rightarrow> bool" where
  "is_settle (Settle out) = True"
| "is_settle e = False"

text \<open>
  The value last given to the setter by the caller while the component was mounted, or
  \<open>v\<close> when there is none: the calls after the unmount do not count.
\<close>

fun last_set :: "'s \<Rightarrow> ('c, 's) event list \<Rightarrow> 's" where
  "last_set v [] = v"
| "last_set v (SetState w # es) = last_set w es"
| "last_set v (Unmount # es) = v"
| "last_set v (e # es) = last_set v es"


section \<open>useVuex\<close>

datatype js_error = TypeError | Thrown string

text \<open>
  The two overloads: a selector alone (one argument), or a target and a selector of that
  target (two arguments). A selector reads the store, so it is a function of the
  store's state \<open>'w\<close>.
\<close>

datatype ('t, 'w, 'r) vuex_args =
    SelectorOnly "'w \<Rightarrow> 'r"
  | TargetSelector 't "'t \<Rightarrow> 'w \<Rightarrow> 'r"

text \<open>
  \<^verbatim>\<open>args.length === 1 ? args[0] : () => args[1](args[0])\<close>
\<close>

fun selector_of :: "('t, 'w, 'r) vuex_args \<Rightarrow> 'w \<Rightarrow> 'r" where
  "selector_of (SelectorOnly sel) = sel"
| "selector_of (TargetSelector target sel) = (\<lambda>w. sel target w)"

text \<open>
  The store behind \<^verbatim>\<open>StatefulService.store\<close> is not part of the sources. It is taken
  as its state and the watchers registered by this hook: each has an identifier, the
  getter it was registered with and the value the getter gave last. The callback of
  every such watcher is the hook's \<^verbatim>\<open>newState => setState(newState)\<close>.
\<close>

record ('w, 'r) watcher =
  watcher_id :: nat
  getter :: "'w \<Rightarrow> 'r"
  last_value :: 'r

record ('w, 'r) store =
  store_state :: 'w
  watchers :: "('w, 'r) watcher list"

text \<open>
  What \<^verbatim>\<open>watch\<close> hands back: \<^verbatim>\<open>undefined\<close>, a function that removes the watcher, or
  a function that throws. Calling \<^verbatim>\<open>undefined\<close> is a \<^verbatim>\<open>TypeError\<close>.
\<close>

datatype unsubscribe_handle = Undefined | Unwatch nat | Throwing string

definition remove_watcher :: "nat \<Rightarrow> ('w, 'r) store \<Rightarrow> ('w, 'r) store" where
  "remove_watcher i st = st\<lparr>watchers := filter (\<lambda>x. watcher_id x \<noteq> i) (watchers st)\<rparr>"

fun call_unsubscribe ::
  "unsubscribe_handle \<Rightarrow> ('w, 'r) store \<Rightarrow> js_error + ('w, 'r) store" where
  "call_unsubscribe Undefined st = Inl TypeError"
| "call_unsubscribe (Throwing msg) st = Inl (Thrown msg)"
| "call_unsubscribe (Unwatch i) st = Inr (remove_watcher i st)"

type_synonym ('w, 'r) watch_api =
  "('w \<Rightarrow> 'r) \<Rightarrow> ('w, 'r) store \<Rightarrow> unsubscribe_handle \<times> ('w, 'r) store"

text \<open>A store that works: it registers the getter under a fresh identifier.\<close>

definition fresh_id :: "('w, 'r) watcher list \<Rightarrow> nat" where
  "fresh_id ws = Suc (fold max (map watcher_id ws) 0)"

definition store_watch :: "('w, 'r) watch_api" where
  "store_watch g st =
     (let i = fresh_id (watchers st)
      in (Unwatch i,
          st\<lparr>watchers := watchers st
                 @ [\<lparr>watcher_id = i, getter = g, last_value = g (store_state st)\<rparr>]\<rparr>))"


definition throwing_watch :: "('w, 'r) watch_api" where
  "throwing_watch g st = (Throwing ''unsubscribe failed'', snd (store_watch g st))"

text \<open>
  One mounted instance of \<^verbatim>\<open>useVuex\<close>: the store, the state cell of \<^verbatim>\<open>useState\<close>,
  and the handle that the effect's cleanup closes over.
\<close>

record ('w, 'r) vuex_hook =
  store :: "('w, 'r) store"
  held :: 'r
  unsubscribe :: unsubscribe_handle

text \<open>
  First render and mount: \<^verbatim>\<open>useState(selector)\<close> calls the selector for the initial
  value, the effect registers \<^verbatim>\<open>() => selector()\<close> with the store and keeps the handle.
  Later renders return the cell and, the dependency list being \<^verbatim>\<open>[]\<close>, do nothing else.
\<close>

definition useVuex ::
  "('w, 'r) watch_api \<Rightarrow> ('t, 'w, 'r) vuex_args \<Rightarrow> ('w, 'r) store \<Rightarrow> ('w, 'r) vuex_hook" where
  "useVuex watch args st =
     (let selector = selector_of args;
          state0 = selector (store_state st);
          (unsub, st') = watch (\<lambda>w. selector w) st
      in \<lparr>store = st', held = state0, unsubscribe = unsub\<rparr>)"

text \<open>
  The store notifies after a mutation: every watcher whose getter now gives another
  value gets its callback called with it, which sets the hook's state.
\<close>

fun notify :: "'w \<Rightarrow> ('w, 'r) watcher list \<Rightarrow> 'r \<Rightarrow> ('w, 'r) watcher list \<times> 'r" where
  "notify w [] cur = ([], cur)"
| "notify w (x # xs) cur =
     (let new = getter x w in
      if new = last_value x
      then (let (ys, cur') = notify w xs cur in (x # ys, cur'))
      else (let (ys, cur') = notify w xs new in (x\<lparr>last_value := new\<rparr> # ys, cur')))"

definition commit :: "('w \<Rightarrow> 'w) \<Rightarrow> ('w, 'r) vuex_hook \<Rightarrow> ('w, 'r) vuex_hook" where
  "commit f h =
     (let w = f (store_state (store h));
          (ws, cur) = notify w (watchers (store h)) (held h)
      in h\<lparr>store := \<lparr>store_state = w, watchers = ws\<rparr>, held := cur\<rparr>)"

fun commit_all :: "('w \<Rightarrow> 'w) list \<Rightarrow> ('w, 'r) vuex_hook \<Rightarrow> ('w, 'r) vuex_hook" where
  "commit_all [] h = h"
| "commit_all (f # fs) h = commit_all fs (commit f h)"

text \<open>The value the component renders with after each of a list of mutations.\<close>

fun rendered_after :: "('w \<Rightarrow> 'w) list \<Rightarrow> ('w, 'r) vuex_hook \<Rightarrow> 'r list" where
  "rendered_after [] h = []"
| "rendered_after (f # fs) h = held (commit f h) # rendered_after fs (commit f h)"

text \<open>
  The cleanup of the effect, \<^verbatim>\<open>() => { unsubscribe(); }\<close>, run at unmount: it throws
  what the call throws, or returns and leaves the store that the call left.
\<close>

definition useVuex_unmount :: "('w, 'r) vuex_hook \<Rightarrow> js_error + ('w, 'r) store" where
  "useVuex_unmount h = call_unsubscribe (unsubscribe h) (store h)"



section \<open>RecordingHistory\<close>

text \<open>
  The upload information that \<^verbatim>\<open>RecordingModeService\<close> keeps; its declaration is not
  among the sources, so the fields are the ones this page reads. Byte counts are
  integers, \<open>None\<close> is \<^verbatim>\<open>undefined\<close>.
\<close>

record upload_info =
  uploading :: bool
  uploadedBytes :: "int option"
  totalBytes :: "int option"
  upload_error :: "string option"

text \<open>A number is falsy when it is zero, \<^verbatim>\<open>undefined\<close> is falsy.\<close>

fun truthy :: "int option \<Rightarrow> bool" where
  "truthy None = False"
| "truthy (Some n) = (n \<noteq> 0)"

text \<open>
  JavaScript division does not fail: a zero divisor gives an infinity or \<^verbatim>\<open>NaN\<close>,
  an \<^verbatim>\<open>undefined\<close> operand gives \<^verbatim>\<open>NaN\<close>. The quotient of two numbers is kept exact;
  the rounding of floating point is not modelled.
\<close>

datatype jsnumber = Num rat | NaN | PosInfinity | NegInfinity

definition js_divide :: "int option \<Rightarrow> int option \<Rightarrow> jsnumber" where
  "js_divide a b =
     (case (a, b) of
        (Some x, Some y) \<Rightarrow>
          (if y = 0 then (if x = 0 then NaN else if 0 < x then PosInfinity else NegInfinity)
           else Num (of_int x / of_int y))
      | _ \<Rightarrow> NaN)"

text \<open>What \<^verbatim>\<open>ExportModal\<close> renders: nothing, or the modal with its progress bar.\<close>

datatype view = Fragment | ProgressModal (percent: jsnumber) (timeTarget: int)

definition ExportModal :: "upload_info \<Rightarrow> view" where
  "ExportModal uploadInfo =
     (if \<not> truthy (uploadedBytes uploadInfo) \<or> \<not> truthy (totalBytes uploadInfo) then Fragment
      else ProgressModal (js_divide (uploadedBytes uploadInfo) (totalBytes uploadInfo))
             (1000 * 60))"

datatype ENotificationType = INFO | WARNING | SUCCESS

record notification =
  message :: string
  ntype :: ENotificationType
  lifeTime :: int

text \<open>The uploads that \<^verbatim>\<open>handleSelect\<close> can start with \<^verbatim>\<open>RecordingModeService\<close>.\<close>

datatype service_action =
    UploadToYoutube string
  | UploadToStorage string string

text \<open>
  The controller as \<^verbatim>\<open>handleSelect\<close> sees it: what it reads from the services (the
  upload information, the identifier \<^verbatim>\<open>auth?.slid?.id\<close> of the linked account), its own
  store (\<open>showSLIDModal\<close>), and what it has sent to the services: the notifications
  pushed and the uploads started.
\<close>

record controller =
  uploadInfo :: upload_info
  slid_id :: "string option"
  showSLIDModal :: bool
  pushed :: "notification list"
  started :: "service_action list"

definition hasSLID :: "controller \<Rightarrow> bool" where
  "hasSLID c = (case slid_id c of None \<Rightarrow> False | Some i \<Rightarrow> i \<noteq> [])"

definition postError :: "string \<Rightarrow> controller \<Rightarrow> controller" where
  "postError msg c =
     c\<lparr>pushed := pushed c @ [\<lparr>message = msg, ntype = WARNING, lifeTime = 5000\<rparr>]\<rparr>"

text \<open>
  The two uploads start a service action; what they do once the service has answered
  happens later and is not part of the call.
\<close>

definition uploadToYoutube :: "string \<Rightarrow> controller \<Rightarrow> controller" where
  "uploadToYoutube filename c = c\<lparr>started := started c @ [UploadToYoutube filename]\<rparr>"

definition uploadToStorage :: "string \<Rightarrow> string \<Rightarrow> controller \<Rightarrow> controller" where
  "uploadToStorage filename platform c =
     c\<lparr>started := started c @ [UploadToStorage filename platform]\<rparr>"

text \<open>\<open>t\<close> is the translation function \<^verbatim>\<open>$t\<close>.\<close>

definition handleSelect ::
  "(string \<Rightarrow> string) \<Rightarrow> string \<Rightarrow> string \<Rightarrow> controller \<Rightarrow> controller" where
  "handleSelect t filename platform c =
     (if uploading (uploadInfo c) then postError (t ''Upload already in progress'') c
      else if platform = ''youtube'' then uploadToYoutube filename c
      else if hasSLID c then uploadToStorage filename platform c
      else c\<lparr>showSLIDModal := True\<rparr>)"


section \<open>Invariant and example inputs\<close>

text \<open>
  What every reachable instance of \<^verbatim>\<open>useAsyncState\<close> satisfies: the callback of
  \<^verbatim>\<open>then\<close> and the cleanup were created by the same render, so they share one
  \<^verbatim>\<open>isDestroyed\<close>, and that render has happened.
\<close>

definition hook_inv :: "('c, 's) async_hook \<Rightarrow> bool" where
  "hook_inv h \<longleftrightarrow> then_render h = destroy_render h \<and> destroy_render h < renders h"

definition nested_helper :: helper where
  "nested_helper =
     useStateHelper
       (Value [''a'' \<mapsto> JObj [''k'' \<mapsto> JNum 1, ''j'' \<mapsto> JNum 2], ''b'' \<mapsto> JNum 3])"

text \<open>
  A helper rendered with \<^verbatim>\<open>{a: 1, x: 0}\<close> on which \<^verbatim>\<open>updateState({a: 2})\<close> has been
  called and that has not rendered again.
\<close>

definition patched_helper :: helper where
  "patched_helper =
     updateState [''a'' \<mapsto> JNum 2]
       (useStateHelper (Value [''a'' \<mapsto> JNum 1, ''x'' \<mapsto> JNum 0]))"

definition empty_store :: "(nat, nat) store" where
  "empty_store = \<lparr>store_state = 0, watchers = []\<rparr>"

definition successor_selector :: "(unit, nat, nat) vuex_args" where
  "successor_selector = SelectorOnly Suc"

definition uploading_info :: upload_info where
  "uploading_info =
     \<lparr>uploading = True, uploadedBytes = Some 5, totalBytes = Some 20, upload_error = None\<rparr>"

definition busy_controller :: controller where
  "busy_controller =
     \<lparr>uploadInfo = uploading_info, slid_id = None, showSLIDModal = False,
      pushed = [], started = []\<rparr>"


section \<open>Properties of useStateHelper\<close>

lemma setState_fields:
  "stateRef (setState n h) = n" "cell (setState n h) = n"
  "s_rendered (setState n h) = s_rendered h"
  by (simp_all add: setState_def setStateRaw_def)

text \<open>
  C2. Two patches in the same synchronous turn compose: after \<^verbatim>\<open>updateState(q)\<close> and then
  \<^verbatim>\<open>updateState(p)\<close>, with no render in between, both the mirror and the state cell
  hold the original record with \<^verbatim>\<open>q\<close> and then \<^verbatim>\<open>p\<close> merged into it. The rendered
  value is still the old one, and the next render shows the merged record.
\<close>

theorem updateState_twice_composes:
  "stateRef (updateState p (updateState q h)) = (stateRef h ++ q) ++ p
   \<and> cell (updateState p (updateState q h)) = (stateRef h ++ q) ++ p
   \<and> s_rendered (updateState p (updateState q h)) = s_rendered h
   \<and> s_rendered (rerender (updateState p (updateState q h))) = (stateRef h ++ q) ++ p"
  by (simp add: updateState_def setState_fields rerender_def)

text \<open>
  When nothing was committed since the last render, the mirror is the rendered record
  and \<^verbatim>\<open>bind(x).onChange(v)\<close> does what \<^verbatim>\<open>updateState({x: v})\<close> does.
\<close>

lemma bind_onChange_after_render:
  "stateRef h = s_rendered h \<Longrightarrow> onChange (bind h x) v h = updateState [x \<mapsto> v] h"
  by (simp add: bind_def createBinding_def updateState_def)

text \<open>
  C3. \<^verbatim>\<open>bind(x).onChange(v)\<close> is claimed to commit what \<^verbatim>\<open>updateState({x: v})\<close>
  commits, also when other updates went through the mirror since the last render. It
  does not: rendered with \<^verbatim>\<open>{a: 1, x: 0}\<close> and patched with \<^verbatim>\<open>{a: 2}\<close> in the same
  turn, \<^verbatim>\<open>bind('x').onChange(5)\<close> commits a record whose \<^verbatim>\<open>a\<close> is 1 again, while
  \<^verbatim>\<open>updateState({x: 5})\<close> keeps \<^verbatim>\<open>a\<close> at 2.
\<close>

theorem bind_onChange_loses_update:
  "stateRef (onChange (bind patched_helper ''x'') (JNum 5) patched_helper) ''a'' = Some (JNum 1)
   \<and> stateRef (updateState [''x'' \<mapsto> JNum 5] patched_helper) ''a'' = Some (JNum 2)
   \<and> onChange (bind patched_helper ''x'') (JNum 5) patched_helper
       \<noteq> updateState [''x'' \<mapsto> JNum 5] patched_helper"
proof -
  have 1: "stateRef (onChange (bind patched_helper ''x'') (JNum 5) patched_helper) ''a''
             = Some (JNum 1)"
    by (simp add: patched_helper_def bind_def createBinding_def updateState_def
          setState_fields useStateHelper_def Let_def)
  have 2: "stateRef (updateState [''x'' \<mapsto> JNum 5] patched_helper) ''a'' = Some (JNum 2)"
    by (simp add: patched_helper_def updateState_def setState_fields useStateHelper_def Let_def)
  from 1 2 show ?thesis by auto
qed

text \<open>
  C7. When the field \<^verbatim>\<open>dictionaryName\<close> of the state holds a record \<open>d\<close>,
  \<^verbatim>\<open>setItem(dictionaryName, key, value)\<close> commits a state whose field
  \<^verbatim>\<open>dictionaryName\<close> holds a record with \<^verbatim>\<open>value\<close> at \<^verbatim>\<open>key\<close> and every other entry
  as in \<open>d\<close>, and whose other top-level fields are unchanged; the state cell and the
  mirror both hold it.
\<close>

theorem setItem_frame:
  assumes "stateRef h dictionaryName = Some (JObj d)"
  shows "\<exists>d'. stateRef (setItem dictionaryName key val h) dictionaryName = Some (JObj d')
            \<and> d' key = Some val
            \<and> (\<forall>k. k \<noteq> key \<longrightarrow> d' k = d k)
            \<and> (\<forall>f. f \<noteq> dictionaryName \<longrightarrow>
                  stateRef (setItem dictionaryName key val h) f = stateRef h f)
            \<and> cell (setItem dictionaryName key val h)
                = stateRef (setItem dictionaryName key val h)"
  using assms by (simp add: setItem_def setState_fields get_prop_def)

theorem setItem_frame_witness:
  "stateRef nested_helper ''a'' = Some (JObj [''k'' \<mapsto> JNum 1, ''j'' \<mapsto> JNum 2])
   \<and> (\<exists>d'. stateRef (setItem ''a'' ''k'' (JNum 9) nested_helper) ''a'' = Some (JObj d')
            \<and> d' ''k'' = Some (JNum 9) \<and> d' ''j'' = Some (JNum 2))
   \<and> stateRef (setItem ''a'' ''k'' (JNum 9) nested_helper) ''b'' = Some (JNum 3)"
proof -
  have a: "stateRef nested_helper ''a'' = Some (JObj [''k'' \<mapsto> JNum 1, ''j'' \<mapsto> JNum 2])"
    by (simp add: nested_helper_def useStateHelper_def Let_def)
  have b: "stateRef nested_helper ''b'' = Some (JNum 3)"
    by (simp add: nested_helper_def useStateHelper_def Let_def)
  from setItem_frame[OF a, of "''k''" "JNum 9"] a b show ?thesis
    by auto
qed


section \<open>Properties of useAsyncState\<close>

lemma hook_inv_first: "hook_inv (useAsyncState d cb)"
  by (simp add: hook_inv_def useAsyncState_def memo_factory_def split: option.split)

lemma hook_inv_step: "hook_inv h \<Longrightarrow> hook_inv (step e h)"
  by (cases e)
     (auto simp: hook_inv_def rerender_async_def setState_async_def settle_def
        then_callback_def unmount_def run_cleanup_def split: outcome.split)

lemma hook_inv_run: "hook_inv h \<Longrightarrow> hook_inv (run es h)"
  by (induction es arbitrary: h) (simp_all add: hook_inv_step)

lemma calls_step: "asyncCb_calls (step e h) = asyncCb_calls h"
  by (cases e)
     (auto simp: rerender_async_def setState_async_def settle_def
        then_callback_def unmount_def run_cleanup_def split: outcome.split)

lemma calls_run: "asyncCb_calls (run es h) = asyncCb_calls h"
  by (induction es arbitrary: h) (simp_all add: calls_step)

lemma run_append: "run (es @ fs) h = run fs (run es h)"
  by (induction es arbitrary: h) simp_all

text \<open>Once set, the variable that \<^verbatim>\<open>then\<close>'s callback reads stays set.\<close>

lemma destroyed_step:
  "hook_inv h \<Longrightarrow> isDestroyed h (then_render h) \<Longrightarrow>
     isDestroyed (step e h) (then_render (step e h))"
  by (cases e)
     (auto simp: hook_inv_def rerender_async_def setState_async_def settle_def
        then_callback_def unmount_def run_cleanup_def split: outcome.split)

lemma destroyed_run:
  "hook_inv h \<Longrightarrow> isDestroyed h (then_render h) \<Longrightarrow>
     isDestroyed (run es h) (then_render (run es h))"
  by (induction es arbitrary: h) (simp_all add: destroyed_step hook_inv_step)

text \<open>A component stays mounted until the unmount, and never mounts again.\<close>

lemma mounted_step: "mounted (step e h) \<longleftrightarrow> mounted h \<and> e \<noteq> Unmount"
  by (cases e)
     (auto simp: rerender_async_def setState_async_def settle_def
        then_callback_def unmount_def run_cleanup_def split: outcome.split)

lemma mounted_run: "mounted (run es h) \<longleftrightarrow> mounted h \<and> Unmount \<notin> set es"
  by (induction es arbitrary: h) (auto simp: mounted_step)

text \<open>After the unmount the state is what it was, whatever happens.\<close>

lemma frozen_step: "\<not> mounted h \<Longrightarrow> state (step e h) = state h"
  by (cases e)
     (auto simp: rerender_async_def setState_async_def settle_def
        then_callback_def unmount_def run_cleanup_def split: outcome.split)

lemma frozen_run: "\<not> mounted h \<Longrightarrow> state (run es h) = state h"
  by (induction es arbitrary: h) (simp_all add: frozen_step mounted_step)

lemma last_set_append:
  "last_set v (es @ fs) = (if Unmount \<in> set es then last_set v es else last_set (last_set v es) fs)"
  by (induction v es rule: last_set.induct) simp_all

text \<open>While the initializer has not settled, only the caller's setter changes the state.\<close>

lemma quiet_step:
  "\<not> is_settle e \<Longrightarrow> mounted h \<Longrightarrow>
     promise (step e h) = promise h \<and> state (step e h) = last_set (state h) [e]"
  by (cases e) (auto simp: rerender_async_def setState_async_def unmount_def run_cleanup_def)

lemma quiet_promise_step: "\<not> is_settle e \<Longrightarrow> promise (step e h) = promise h"
  by (cases e) (auto simp: rerender_async_def setState_async_def unmount_def run_cleanup_def)

lemma quiet_promise_run: "\<forall>e\<in>set es. \<not> is_settle e \<Longrightarrow> promise (run es h) = promise h"
  by (induction es arbitrary: h) (simp_all add: quiet_promise_step)

lemma quiet_run:
  "\<forall>e\<in>set es. \<not> is_settle e \<Longrightarrow> mounted h \<Longrightarrow> state (run es h) = last_set (state h) es"
proof (induction es arbitrary: h)
  case Nil
  then show ?case by simp
next
  case (Cons e es)
  then have q: "\<not> is_settle e" by simp
  show ?case
  proof (cases "e = Unmount")
    case True
    then have "\<not> mounted (step e h)" by (simp add: unmount_def)
    from frozen_run[OF this, of es] True show ?thesis by (simp add: unmount_def)
  next
    case False
    with Cons.prems have m: "mounted (step e h)" by (simp add: mounted_step)
    from Cons.IH[OF _ m] Cons.prems(1) quiet_step[OF q Cons.prems(2)] False show ?thesis
      by (cases e) simp_all
  qed
qed

text \<open>A settled promise stays as it is, and settling again does nothing.\<close>

lemma settled_step:
  "promise h \<noteq> Some Pending \<Longrightarrow> mounted h \<Longrightarrow>
     promise (step e h) = promise h \<and> state (step e h) = last_set (state h) [e]"
  by (cases e)
     (auto simp: rerender_async_def setState_async_def unmount_def run_cleanup_def settle_def)

lemma settled_promise_step: "promise h \<noteq> Some Pending \<Longrightarrow> promise (step e h) = promise h"
  by (cases e)
     (auto simp: rerender_async_def setState_async_def unmount_def run_cleanup_def settle_def)

lemma settled_promise_run: "promise h \<noteq> Some Pending \<Longrightarrow> promise (run es h) = promise h"
  by (induction es arbitrary: h) (simp_all add: settled_promise_step)

lemma settled_run:
  "promise h \<noteq> Some Pending \<Longrightarrow> mounted h \<Longrightarrow> state (run es h) = last_set (state h) es"
proof (induction es arbitrary: h)
  case Nil
  then show ?case by simp
next
  case (Cons e es)
  have p: "promise (step e h) \<noteq> Some Pending"
    using settled_promise_step[OF Cons.prems(1), of e] Cons.prems(1) by simp
  show ?case
  proof (cases "e = Unmount")
    case True
    then have "\<not> mounted (step e h)" by (simp add: unmount_def)
    from frozen_run[OF this, of es] True show ?thesis by (simp add: unmount_def)
  next
    case False
    with Cons.prems have m: "mounted (step e h)" by (simp add: mounted_step)
    from Cons.IH[OF p m] settled_step[OF Cons.prems, of e] False show ?thesis
      by (cases e) simp_all
  qed
qed

lemma first_fields:
  "state (useAsyncState d cb) = initial d"
  "mounted (useAsyncState d cb)"
  "promise (useAsyncState d (Some c)) = Some Pending"
  "promise (useAsyncState d None) = None"
  "asyncCb_calls (useAsyncState d (Some c)) = [(c, initial d)]"
  "asyncCb_calls (useAsyncState d None) = []"
  by (simp_all add: useAsyncState_def memo_factory_def split: option.split)

lemma cleanup_destroys:
  "hook_inv h \<Longrightarrow> \<not> mounted h \<Longrightarrow> isDestroyed (run_cleanup h) (then_render (run_cleanup h))"
  by (simp add: hook_inv_def run_cleanup_def)

lemma settle_destroyed:
  "isDestroyed h (then_render h) \<Longrightarrow> promise h = Some Pending \<Longrightarrow>
     settle (Fulfilled v) h = h\<lparr>promise := Some (Settled (Fulfilled None))\<rparr>"
  by (simp add: settle_def then_callback_def)

text \<open>
  For contrast: an initializer that resolves while the component is mounted is applied,
  and the promise resolves to its value.
\<close>

lemma resolve_while_mounted_example:
  "returned (run [SetState 7, Settle (Fulfilled 99)] (useAsyncState (Value (1::int)) (Some ''cb'')))
     = (99, Some (Settled (Fulfilled (Some 99))))"
  by (simp add: returned_def useAsyncState_def memo_factory_def setState_async_def settle_def
        then_callback_def)

text \<open>
  C1, as stated: when the component unmounts before the initializer's promise resolves,
  the promise of the triple resolves to \<^verbatim>\<open>null\<close>. It does not when the promise
  resolves after the unmount and before React has run the effect's cleanup:
  \<^verbatim>\<open>isDestroyed\<close> is still false, the callback passes the guard, and the promise
  resolves to the initializer's result, here 99. The state is still the default, 1.
\<close>

theorem resolve_before_cleanup_not_null:
  "returned (run [Unmount, Settle (Fulfilled 99)] (useAsyncState (Value (1::int)) (Some ''cb'')))
     = (1, Some (Settled (Fulfilled (Some 99))))
   \<and> promise (run [Unmount, Settle (Fulfilled 99)] (useAsyncState (Value (1::int)) (Some ''cb'')))
       \<noteq> Some (Settled (Fulfilled None))"
  by (simp add: returned_def useAsyncState_def memo_factory_def setState_async_def settle_def
        then_callback_def unmount_def)

text \<open>
  C1, amended. Let nothing settle before the unmount. Then the result of the initializer
  is never applied to the state: after the unmount, whatever follows (setter calls, the
  cleanup, a resolution at any moment), the state is the default or the value last given
  to the setter before the unmount. And when the effect's cleanup has run before the
  promise resolves, with nothing settling in between, the promise of the triple resolves
  to \<^verbatim>\<open>null\<close>.
\<close>

theorem unmount_before_resolve_discards:
  assumes "\<forall>e\<in>set (es @ gs @ ks). \<not> is_settle e"
  shows "state (run (es @ Unmount # fs) (useAsyncState d (Some c))) = last_set (initial d) es
       \<and> promise (run (es @ Unmount # gs @ Cleanup # ks @ [Settle (Fulfilled v)])
                   (useAsyncState d (Some c)))
           = Some (Settled (Fulfilled None))"
proof -
  let ?h0 = "useAsyncState d (Some c) :: ('a, 'b) async_hook"
  let ?h1 = "run es ?h0"
  let ?h2 = "unmount ?h1"
  let ?h3 = "run gs ?h2"
  let ?h4 = "run_cleanup ?h3"
  let ?h5 = "run ks ?h4"
  from assms have qe: "\<forall>e\<in>set es. \<not> is_settle e" and qg: "\<forall>e\<in>set gs. \<not> is_settle e"
    and qk: "\<forall>e\<in>set ks. \<not> is_settle e"
    by auto
  have s1: "state ?h1 = last_set (initial d) es"
    using quiet_run[OF qe, of ?h0] by (simp add: first_fields)
  have u2: "\<not> mounted ?h2" by (simp add: unmount_def)
  have "state (run (es @ Unmount # fs) ?h0) = state (run fs ?h2)"
    by (simp add: run_append)
  also have "\<dots> = state ?h2" by (rule frozen_run[OF u2])
  also have "\<dots> = last_set (initial d) es" using s1 by (simp add: unmount_def)
  finally have held: "state (run (es @ Unmount # fs) ?h0) = last_set (initial d) es" .
  have i1: "hook_inv ?h1" by (simp add: hook_inv_run hook_inv_first)
  have p1: "promise ?h1 = Some Pending"
    using quiet_promise_run[OF qe, of ?h0] by (simp add: first_fields)
  have i2: "hook_inv ?h2" using hook_inv_step[OF i1, of Unmount] by simp
  have p2: "promise ?h2 = Some Pending" using p1 by (simp add: unmount_def)
  have i3: "hook_inv ?h3" by (rule hook_inv_run[OF i2])
  have u3: "\<not> mounted ?h3" using u2 by (simp add: mounted_run)
  have p3: "promise ?h3 = Some Pending" using quiet_promise_run[OF qg, of ?h2] p2 by simp
  have i4: "hook_inv ?h4" using hook_inv_step[OF i3, of Cleanup] by simp
  have d4: "isDestroyed ?h4 (then_render ?h4)" by (rule cleanup_destroys[OF i3 u3])
  have p4: "promise ?h4 = Some Pending" using p3 by (simp add: run_cleanup_def)
  have d5: "isDestroyed ?h5 (then_render ?h5)" by (rule destroyed_run[OF i4 d4])
  have p5: "promise ?h5 = Some Pending" using quiet_promise_run[OF qk, of ?h4] p4 by simp
  have "run (es @ Unmount # gs @ Cleanup # ks @ [Settle (Fulfilled v)]) ?h0
          = settle (Fulfilled v) ?h5"
    by (simp add: run_append)
  also have "\<dots> = ?h5\<lparr>promise := Some (Settled (Fulfilled None))\<rparr>"
    by (rule settle_destroyed[OF d5 p5])
  finally have "promise (run (es @ Unmount # gs @ Cleanup # ks @ [Settle (Fulfilled v)]) ?h0)
                  = Some (Settled (Fulfilled None))"
    by simp
  with held show ?thesis by simp
qed

theorem unmount_before_resolve_discards_witness:
  "list_all (\<lambda>e. \<not> is_settle e) ([SetState 7, Rerender (Value 0) None] @ [] @ [SetState 8])
   \<and> state (run ([SetState 7, Rerender (Value 0) None] @ Unmount
                   # [SetState 8, Settle (Fulfilled 99), Cleanup])
              (useAsyncState (Value (1::int)) (Some ''cb''))) = 7
   \<and> promise (run ([SetState 7, Rerender (Value 0) None] @ Unmount # [] @ Cleanup
                     # [SetState 8] @ [Settle (Fulfilled 99)])
                (useAsyncState (Value (1::int)) (Some ''cb''))) = Some (Settled (Fulfilled None))"
proof -
  have q: "\<forall>e\<in>set ([SetState 7, Rerender (Value 0) None] @ [] @ [SetState (8::int)]).
             \<not> is_settle (e :: (string, int) event)"
    by simp
  from unmount_before_resolve_discards[OF q, where v = 99 and d = "Value 1" and c = "''cb''"
         and fs = "[SetState 8, Settle (Fulfilled 99), Cleanup]"]
  show ?thesis by simp
qed

text \<open>
  C5. The initializer is called exactly once per instance, by the first render and with
  the initial state as its only argument: whatever renders (with whatever callbacks),
  setter calls, settlements and unmount follow, the log of calls holds that one call.
  Without an initializer nothing is called.
\<close>

theorem initializer_called_once:
  "asyncCb_calls (run es (useAsyncState d (Some c))) = [(c, initial d)]
   \<and> asyncCb_calls (run es (useAsyncState d None)) = []"
  by (simp add: calls_run first_fields)

text \<open>
  C6. If the initializer rejects, the promise of the triple is rejected with the same
  reason and stays so, and the state is never set from the failed computation: it is
  the default or the value last given to the setter by the caller.
\<close>

theorem rejection_propagates:
  assumes "\<forall>e\<in>set es. \<not> is_settle e"
  shows "returned (run (es @ Settle (Rejected r) # fs) (useAsyncState d (Some c)))
           = (last_set (initial d) (es @ fs), Some (Settled (Rejected r)))"
proof -
  let ?h0 = "useAsyncState d (Some c) :: ('a, 'b) async_hook"
  let ?h1 = "run es ?h0"
  let ?h2 = "settle (Rejected r) ?h1"
  have p1: "promise ?h1 = Some Pending"
    using quiet_promise_run[OF assms, of ?h0] by (simp add: first_fields)
  have s1: "state ?h1 = last_set (initial d) es"
    using quiet_run[OF assms, of ?h0] by (simp add: first_fields)
  have m1: "mounted ?h1 \<longleftrightarrow> Unmount \<notin> set es"
    by (simp add: mounted_run first_fields)
  have p2: "promise ?h2 = Some (Settled (Rejected r))" "state ?h2 = last_set (initial d) es"
    "mounted ?h2 = mounted ?h1"
    using p1 s1 by (simp_all add: settle_def)
  have n2: "promise ?h2 \<noteq> Some Pending" using p2 by simp
  have pr: "promise (run fs ?h2) = Some (Settled (Rejected r))"
    using settled_promise_run[OF n2, of fs] p2 by simp
  have st: "state (run fs ?h2) = last_set (initial d) (es @ fs)"
  proof (cases "Unmount \<in> set es")
    case True
    with m1 p2 have "\<not> mounted ?h2" by simp
    from frozen_run[OF this, of fs] p2 True show ?thesis by (simp add: last_set_append)
  next
    case False
    with m1 p2 have "mounted ?h2" by simp
    from settled_run[OF n2 this, of fs] p2 False show ?thesis by (simp add: last_set_append)
  qed
  from pr st show ?thesis by (simp add: returned_def run_append)
qed

theorem rejection_propagates_witness:
  "list_all (\<lambda>e. \<not> is_settle e) [SetState 7]
   \<and> returned (run ([SetState 7] @ Settle (Rejected ''network'') # [Rerender (Value 0) None])
                 (useAsyncState (Value (1::int)) (Some ''cb'')))
       = (7, Some (Settled (Rejected ''network'')))"
proof -
  have q: "\<forall>e\<in>set [SetState (7::int)]. \<not> is_settle (e :: (string, int) event)"
    by simp
  from rejection_propagates[OF q, where r = "''network''" and d = "Value 1" and c = "''cb''"
         and fs = "[Rerender (Value 0) None]"]
  show ?thesis by simp
qed


section \<open>Properties of useVuex\<close>




text \<open>
  With a store that works, the hook follows the store and the cleanup removes the
  watcher; with a handle that throws, the cleanup throws what the handle throws.
\<close>

lemma useVuex_follows_store_example:
  "held (useVuex store_watch successor_selector empty_store) = 1
   \<and> rendered_after [\<lambda>w. w + 5, \<lambda>w. w, \<lambda>w. 0]
        (useVuex store_watch successor_selector empty_store) = [6, 6, 1]
   \<and> useVuex_unmount (commit (\<lambda>w. w + 5) (useVuex store_watch successor_selector empty_store))
       = Inr \<lparr>store_state = 5, watchers = []\<rparr>"
  by (simp add: useVuex_def store_watch_def successor_selector_def empty_store_def fresh_id_def
        commit_def useVuex_unmount_def remove_watcher_def Let_def)

lemma cleanup_throwing_handle_example:
  "useVuex_unmount (useVuex throwing_watch successor_selector empty_store)
     = Inl (Thrown ''unsubscribe failed'')"
  by (simp add: useVuex_unmount_def useVuex_def throwing_watch_def successor_selector_def)



text \<open>
  C8. The two call shapes behave alike. For every store, target \<open>t\<close> and selector \<open>f\<close>,
  the hook mounted with the target and the selector is the hook mounted with the closure
  \<^verbatim>\<open>() => f(t)\<close> alone: the same initial value \<open>f t\<close> of the store's state, the same
  registration with the store, the same value rendered after every mutation, and the
  same outcome of the cleanup at unmount.
\<close>

theorem call_shapes_equivalent:
  "useVuex watch (TargetSelector t f) st = useVuex watch (SelectorOnly (\<lambda>w. f t w)) st
   \<and> held (useVuex watch (TargetSelector t f) st) = f t (store_state st)
   \<and> rendered_after ms (useVuex watch (TargetSelector t f) st)
       = rendered_after ms (useVuex watch (SelectorOnly (\<lambda>w. f t w)) st)
   \<and> useVuex_unmount (commit_all ms (useVuex watch (TargetSelector t f) st))
       = useVuex_unmount (commit_all ms (useVuex watch (SelectorOnly (\<lambda>w. f t w)) st))"
  by (simp add: useVuex_def Let_def split: prod.split)


section \<open>Properties of RecordingHistory\<close>

text \<open>
  C9. \<^verbatim>\<open>ExportModal\<close> renders the progress modal only when \<^verbatim>\<open>uploadedBytes\<close> and
  \<^verbatim>\<open>totalBytes\<close> are both numbers other than zero, and the fraction it passes on is
  then their quotient, with a divisor that is not zero.
\<close>

theorem ExportModal_nonzero_divisor:
  assumes "ExportModal info = ProgressModal p tt"
  shows "\<exists>u t. uploadedBytes info = Some u \<and> totalBytes info = Some t \<and> u \<noteq> 0 \<and> t \<noteq> 0
           \<and> p = Num (of_int u / of_int t)"
proof -
  from assms have tu: "truthy (uploadedBytes info)" and tt: "truthy (totalBytes info)"
    and p: "p = js_divide (uploadedBytes info) (totalBytes info)"
    by (auto simp: ExportModal_def split: if_splits)
  from tu obtain u where u: "uploadedBytes info = Some u" "u \<noteq> 0"
    by (cases "uploadedBytes info") auto
  from tt obtain t where t: "totalBytes info = Some t" "t \<noteq> 0"
    by (cases "totalBytes info") auto
  from p u t show ?thesis by (simp add: js_divide_def)
qed

theorem ExportModal_nonzero_divisor_witness:
  "ExportModal uploading_info = ProgressModal (Num (1 / 4)) 60000
   \<and> (\<exists>u t. uploadedBytes uploading_info = Some u \<and> totalBytes uploading_info = Some t
         \<and> u \<noteq> 0 \<and> t \<noteq> 0 \<and> Num (1 / 4) = Num (of_int u / of_int t))"
proof -
  have e: "ExportModal uploading_info = ProgressModal (Num (1 / 4)) 60000"
    by (simp add: ExportModal_def js_divide_def uploading_info_def)
  from ExportModal_nonzero_divisor[OF e] e show ?thesis by simp
qed

text \<open>
  C10. While an upload is in progress, \<^verbatim>\<open>handleSelect\<close> does one thing for every file
  name and platform: it pushes the warning notification. No upload is started and
  \<^verbatim>\<open>showSLIDModal\<close> keeps its value.
\<close>

theorem handleSelect_while_uploading:
  assumes "uploading (uploadInfo c)"
  shows "handleSelect t filename platform c
           = c\<lparr>pushed := pushed c @ [\<lparr>message = t ''Upload already in progress'',
                                        ntype = WARNING, lifeTime = 5000\<rparr>]\<rparr>
       \<and> started (handleSelect t filename platform c) = started c
       \<and> showSLIDModal (handleSelect t filename platform c) = showSLIDModal c"
  using assms by (simp add: handleSelect_def postError_def)

theorem handleSelect_while_uploading_witness:
  "uploading (uploadInfo busy_controller)
   \<and> pushed (handleSelect id ''rec.mp4'' ''youtube'' busy_controller)
       = [\<lparr>message = ''Upload already in progress'', ntype = WARNING, lifeTime = 5000\<rparr>]
   \<and> started (handleSelect id ''rec.mp4'' ''youtube'' busy_controller) = []
   \<and> showSLIDModal (handleSelect id ''rec.mp4'' ''youtube'' busy_controller) = False"
proof -
  have u: "uploading (uploadInfo busy_controller)"
    by (simp add: busy_controller_def uploading_info_def)
  from handleSelect_while_uploading[OF u, of id "''rec.mp4''" "''youtube''"] u show ?thesis
    by (simp add: busy_controller_def)
qed

end
